theory Spec2Isabelle
  imports
    Main
    "HOL-Library.Char_ord"
    "HOL-Library.List_Lexorder"
    "HOL-Library.Finite_Map"
    "HOL-Library.Sublist"
begin

unbundle bit_operations_syntax

section \<open>The \<open>esc env open\<close> command (cmd/esc/cli/env\_open.go)\<close>

text \<open>
  Go strings are byte sequences, modelled as \<^typ>\<open>string\<close> (a list of 8-bit characters).
  The order on strings is the lexicographic order on bytes (\<open>Char_ord\<close> with
  \<open>List_Lexorder\<close>), which is the order Go's \<open><\<close> on strings and \<open>sort.Strings\<close> use.
\<close>

subsection \<open>Values and environments\<close>

text \<open>
  Modelled from the spec: the types \<open>esc.Value\<close> and \<open>esc.Environment\<close> are declared in
  package esc. A value is a tagged union of nil, boolean, number, string, sequence of
  values and mapping from strings to values, and carries a secret flag. The code reads
  the union through type assertions on the field \<open>Value\<close>; a number is a \<open>json.Number\<close>,
  which is a string, and a mapping is a Go map, an unordered finite map with unique
  keys, hence \<open>fmap\<close>. The same shapes over \<open>any\<close> are what \<open>ToJSON\<close> produces.
\<close>

datatype 'v any =
    Nil
  | Bool bool
  | Number string
  | String string
  | Array "'v list"
  | Map "(string, 'v) fmap"

datatype Value = Value (val: "Value any") (Secret: bool)

datatype json = JSON "json any"

text \<open>The zero value \<open>esc.Value{}\<close>.\<close>

definition zeroValue :: Value where
  "zeroValue = Value Nil False"

text \<open>\<open>esc.NewValue(v)\<close> is \<open>Value{Value: v}\<close>.\<close>

definition NewValue :: "Value any \<Rightarrow> Value" where
  "NewValue v = Value v False"

record Environment =
  Properties :: "(string, Value) fmap"

text \<open>
  A property path (\<open>resource.PropertyPath\<close>): a sequence of mapping keys and sequence
  indices. The empty path stands for the whole tree.
\<close>

datatype segment = Key string | Index nat

type_synonym PropertyPath = "segment list"

text \<open>A Go error, with the message that \<open>Error()\<close> returns.\<close>

datatype error = Error (message: string)

subsection \<open>Collaborators outside this file\<close>

text \<open>
  The libraries the renderer calls are parameters of the model:
  \<^item> \<open>isPrintTable r\<close>: the Unicode table lookup of \<open>strconv.IsPrint\<close> for runes above
    \<open>0xFF\<close>;
  \<^item> \<open>mapsKeys m\<close>: \<open>maps.Keys(m)\<close>, the keys of a map in an indeterminate order;
  \<^item> \<open>jsonEncode\<close>, \<open>detailedEncode\<close>: the bytes that \<open>json.Encoder.Encode\<close> with
    two-space indent writes for a JSON body and for a \<open>Value\<close>, or the error it returns;
  \<^item> \<open>ToString\<close>: \<open>Value.ToString(false)\<close>.
\<close>

record lib =
  isPrintTable :: "nat \<Rightarrow> bool"
  mapsKeys :: "(string, Value) fmap \<Rightarrow> string list"
  jsonEncode :: "json \<Rightarrow> error + string"
  detailedEncode :: "Value \<Rightarrow> error + string"
  ToString :: "Value \<Rightarrow> string"

text \<open>What \<open>maps.Keys\<close> guarantees on a map: every key once, in some order.\<close>

definition keysOf :: "lib \<Rightarrow> (string, Value) fmap \<Rightarrow> bool" where
  "keysOf L m \<longleftrightarrow> distinct (mapsKeys L m) \<and> set (mapsKeys L m) = fmdom' m"

subsection \<open>\<open>%q\<close>: strconv.Quote\<close>

abbreviation (input) dquote :: char where "dquote \<equiv> CHR 0x22"
abbreviation (input) backslash :: char where "backslash \<equiv> CHR 0x5C"
abbreviation (input) newline :: char where "newline \<equiv> CHR 0x0A"

definition RuneError :: nat where
  "RuneError = 0xFFFD"

definition RuneSelf :: nat where
  "RuneSelf = 0x80"

definition lowerhex :: "nat \<Rightarrow> char" where
  "lowerhex n = ''0123456789abcdef'' ! n"

text \<open>
  The table \<open>first\<close> of package utf8 with its accept ranges: for a leading byte, the
  length of the encoding and the range allowed for the second byte; \<open>None\<close> for a byte
  that cannot start a multi-byte encoding.
\<close>

definition first :: "nat \<Rightarrow> (nat \<times> nat \<times> nat) option" where
  "first s0 =
     (if 0xC2 \<le> s0 \<and> s0 \<le> 0xDF then Some (2, 0x80, 0xBF)
      else if s0 = 0xE0 then Some (3, 0xA0, 0xBF)
      else if 0xE1 \<le> s0 \<and> s0 \<le> 0xEC then Some (3, 0x80, 0xBF)
      else if s0 = 0xED then Some (3, 0x80, 0x9F)
      else if 0xEE \<le> s0 \<and> s0 \<le> 0xEF then Some (3, 0x80, 0xBF)
      else if s0 = 0xF0 then Some (4, 0x90, 0xBF)
      else if 0xF1 \<le> s0 \<and> s0 \<le> 0xF3 then Some (4, 0x80, 0xBF)
      else if s0 = 0xF4 then Some (4, 0x80, 0x8F)
      else None)"

text \<open>\<open>utf8.DecodeRuneInString\<close>: the first rune of \<open>s\<close> and its width in bytes.\<close>

definition DecodeRuneInString :: "string \<Rightarrow> nat \<times> nat" where
  "DecodeRuneInString s =
     (case map of_char s of
        [] \<Rightarrow> (RuneError, 0)
      | s0 # t \<Rightarrow>
          if s0 < RuneSelf then (s0, 1)
          else (case first s0 of
            None \<Rightarrow> (RuneError, 1)
          | Some (sz, lo, hi) \<Rightarrow>
              if length s < sz then (RuneError, 1)
              else if t ! 0 < lo \<or> hi < t ! 0 then (RuneError, 1)
              else if sz \<le> 2 then (push_bit 6 (s0 AND 0x1F) OR (t ! 0 AND 0x3F), 2)
              else if t ! 1 < 0x80 \<or> 0xBF < t ! 1 then (RuneError, 1)
              else if sz \<le> 3 then
                (push_bit 12 (s0 AND 0x0F) OR push_bit 6 (t ! 0 AND 0x3F) OR (t ! 1 AND 0x3F), 3)
              else if t ! 2 < 0x80 \<or> 0xBF < t ! 2 then (RuneError, 1)
              else
                (push_bit 18 (s0 AND 0x07) OR push_bit 12 (t ! 0 AND 0x3F)
                   OR push_bit 6 (t ! 1 AND 0x3F) OR (t ! 2 AND 0x3F), 4)))"

text \<open>\<open>utf8.AppendRune\<close>: the UTF-8 encoding of a rune.\<close>

definition AppendRune :: "nat \<Rightarrow> string" where
  "AppendRune r =
     (if r \<le> 0x7F then [char_of r]
      else if r \<le> 0x7FF then
        [char_of (0xC0 OR drop_bit 6 r), char_of (0x80 OR (r AND 0x3F))]
      else if r > 0x10FFFF \<or> (0xD800 \<le> r \<and> r \<le> 0xDFFF) then
        [char_of (0xE0 OR drop_bit 12 RuneError),
         char_of (0x80 OR (drop_bit 6 RuneError AND 0x3F)),
         char_of (0x80 OR (RuneError AND 0x3F))]
      else if r \<le> 0xFFFF then
        [char_of (0xE0 OR drop_bit 12 r),
         char_of (0x80 OR (drop_bit 6 r AND 0x3F)),
         char_of (0x80 OR (r AND 0x3F))]
      else
        [char_of (0xF0 OR drop_bit 18 r),
         char_of (0x80 OR (drop_bit 12 r AND 0x3F)),
         char_of (0x80 OR (drop_bit 6 r AND 0x3F)),
         char_of (0x80 OR (r AND 0x3F))])"

text \<open>\<open>strconv.IsPrint\<close>: Latin-1 is decided in the code, the rest by table.\<close>

definition IsPrint :: "lib \<Rightarrow> nat \<Rightarrow> bool" where
  "IsPrint L r =
     (if r \<le> 0xFF then
        (if 0x20 \<le> r \<and> r \<le> 0x7E then True
         else if 0xA1 \<le> r \<and> r \<le> 0xFF then r \<noteq> 0xAD
         else False)
      else isPrintTable L r)"

text \<open>\<open>utf8.ValidRune\<close>.\<close>

definition ValidRune :: "nat \<Rightarrow> bool" where
  "ValidRune r \<longleftrightarrow> r < 0xD800 \<or> (0xDFFF < r \<and> r \<le> 0x10FFFF)"

text \<open>The hexadecimal digits of \<open>r\<close> for the shifts \<open>4 * (n - 1)\<close>, ..., 4, 0.\<close>

fun hexDigits :: "nat \<Rightarrow> nat \<Rightarrow> string" where
  "hexDigits 0 r = []"
| "hexDigits (Suc n) r = lowerhex (drop_bit (4 * n) r AND 0xF) # hexDigits n r"

text \<open>
  \<open>appendEscapedRune\<close> of strconv with the quote character \<open>"\<close>, neither ASCII-only nor
  graphic-only, as \<open>strconv.Quote\<close> calls it: the bytes appended for the rune \<open>r\<close>.
\<close>

definition appendEscapedRune :: "lib \<Rightarrow> nat \<Rightarrow> string" where
  "appendEscapedRune L r =
     (if r = of_char dquote \<or> r = of_char backslash then [backslash, char_of r]
      else if IsPrint L r then AppendRune r
      else if r = 7 then [backslash, CHR ''a'']
      else if r = 8 then [backslash, CHR ''b'']
      else if r = 12 then [backslash, CHR ''f'']
      else if r = 10 then [backslash, CHR ''n'']
      else if r = 13 then [backslash, CHR ''r'']
      else if r = 9 then [backslash, CHR ''t'']
      else if r = 11 then [backslash, CHR ''v'']
      else if r < 0x20 \<or> r = 0x7F then
        [backslash, CHR ''x'', lowerhex (drop_bit 4 r), lowerhex (r AND 0xF)]
      else if \<not> ValidRune r then [backslash, CHR ''u''] @ hexDigits 4 RuneError
      else if r < 0x10000 then [backslash, CHR ''u''] @ hexDigits 4 r
      else [backslash, CHR ''U''] @ hexDigits 8 r)"

text \<open>The rune at the head of a non-empty string and its width, as the loop of
  \<open>appendQuotedWith\<close> reads it.\<close>

definition headRune :: "string \<Rightarrow> nat \<times> nat" where
  "headRune s =
     (if of_char (hd s) \<ge> RuneSelf then DecodeRuneInString s else (of_char (hd s), 1))"

text \<open>The loop of \<open>appendQuotedWith\<close>: the escaped form of the bytes of \<open>s\<close>.\<close>

function quoteLoop :: "lib \<Rightarrow> string \<Rightarrow> string" where
  "quoteLoop L [] = []"
| "quoteLoop L (c # cs) =
     (if snd (headRune (c # cs)) = 1 \<and> fst (headRune (c # cs)) = RuneError then
        [backslash, CHR ''x'', lowerhex (drop_bit 4 (of_char c)), lowerhex (of_char c AND 0xF)]
      else appendEscapedRune L (fst (headRune (c # cs))))
     @ quoteLoop L (drop (snd (headRune (c # cs))) (c # cs))"
  by pat_completeness auto
termination
proof (relation "measure (\<lambda>(L, s). length s)")
  show "wf (measure (\<lambda>(L :: lib, s :: string). length s))" by simp
next
  fix L :: lib and c :: char and cs :: string
  have "1 \<le> snd (headRune (c # cs))"
    by (auto simp: headRune_def DecodeRuneInString_def split: option.splits)
  then show "((L, drop (snd (headRune (c # cs))) (c # cs)), (L, c # cs))
      \<in> measure (\<lambda>(L, s). length s)"
    by simp
qed

text \<open>\<open>strconv.Quote\<close>, which is what the verb \<open>%q\<close> applies to a string.\<close>

definition Quote :: "lib \<Rightarrow> string \<Rightarrow> string" where
  "Quote L s = dquote # quoteLoop L s @ [dquote]"

subsection \<open>Reading the tree\<close>

text \<open>Indexing a Go map: \<open>m[k]\<close> is the zero value when the key is absent.\<close>

definition index :: "(string, Value) fmap \<Rightarrow> string \<Rightarrow> Value" where
  "index m k = (case fmlookup m k of Some v \<Rightarrow> v | None \<Rightarrow> zeroValue)"

text \<open>
  Modelled from the spec: \<open>getEnvValue\<close> is defined in another file of the package. The
  spec's path navigator: the empty path is the root; a key descends into a mapping that
  has it, an index into a sequence that is long enough; anything else is not found.
\<close>

fun getEnvValue :: "Value \<Rightarrow> PropertyPath \<Rightarrow> Value option" where
  "getEnvValue root [] = Some root"
| "getEnvValue root (Key k # path) =
     (case val root of
        Map m \<Rightarrow> (case fmlookup m k of Some v \<Rightarrow> getEnvValue v path | None \<Rightarrow> None)
      | _ \<Rightarrow> None)"
| "getEnvValue root (Index i # path) =
     (case val root of
        Array xs \<Rightarrow> (if i < length xs then getEnvValue (xs ! i) path else None)
      | _ \<Rightarrow> None)"

text \<open>
  Modelled from the spec: \<open>Value.ToJSON(false)\<close> is a method of package esc. The spec's
  plain JSON projection: sequences become arrays, mappings become objects, scalars stay,
  and secrets are not marked.
\<close>

primrec ToJSON :: "Value \<Rightarrow> json" where
  "ToJSON (Value v s) = JSON (map_any ToJSON v)"

subsection \<open>\<open>getEnvironmentVariables\<close>\<close>

text \<open>The loop over the sorted keys, appending to \<open>environ\<close>.\<close>

fun environLoop :: "lib \<Rightarrow> (string, Value) fmap \<Rightarrow> string list \<Rightarrow> string list \<Rightarrow> string list" where
  "environLoop L vars environ [] = environ"
| "environLoop L vars environ (k # keys) =
     (case val (index vars k) of
        String strValue \<Rightarrow> environLoop L vars (environ @ [k @ ''='' @ Quote L strValue]) keys
      | _ \<Rightarrow> environLoop L vars environ keys)"

definition getEnvironmentVariables :: "lib \<Rightarrow> Environment \<Rightarrow> string list" where
  "getEnvironmentVariables L env =
     (case val (index (Properties env) ''environmentVariables'') of
        Map vars \<Rightarrow> environLoop L vars [] (sort (mapsKeys L vars))
      | _ \<Rightarrow> [])"

subsection \<open>\<open>renderValue\<close>\<close>

text \<open>
  The output stream is the string written so far; a write appends and does not fail.
  \<open>renderValue\<close> returns the stream and the error. \<open>Encode\<close> writes what the encoder
  produced, or returns its error and writes nothing.
\<close>

definition Encode :: "('a \<Rightarrow> error + string) \<Rightarrow> string \<Rightarrow> 'a \<Rightarrow> string \<times> error option" where
  "Encode enc out v = (case enc v of Inl e \<Rightarrow> (out, Some e) | Inr s \<Rightarrow> (out @ s, None))"

definition renderValue ::
  "lib \<Rightarrow> string \<Rightarrow> Environment option \<Rightarrow> PropertyPath \<Rightarrow> string \<Rightarrow> string \<times> error option" where
  "renderValue L out env path format =
     (case env of
        None \<Rightarrow> (out, None)
      | Some e \<Rightarrow>
          let v = (if length path \<noteq> 0 then
                     (case getEnvValue (NewValue (Map (Properties e))) path of
                        Some vv \<Rightarrow> vv
                      | None \<Rightarrow> zeroValue)
                   else NewValue (Map (Properties e)))
          in
            if format = ''json'' then Encode (jsonEncode L) out (ToJSON v)
            else if format = ''detailed'' then Encode (detailedEncode L) out v
            else if format = ''dotenv'' then
              (fold (\<lambda>kvp w. w @ kvp @ [newline]) (getEnvironmentVariables L e) out, None)
            else if format = ''shell'' then
              (fold (\<lambda>kvp w. w @ ''export '' @ kvp @ [newline]) (getEnvironmentVariables L e) out,
               None)
            else if format = ''string'' then (out @ ToString L v @ [newline], None)
            else (out, Some (Error (''unknown output format '' @ Quote L format))))"

subsection \<open>The command\<close>

text \<open>
  The collaborators of the command are parameters: the client's two remote calls, the
  helpers \<open>getCachedClient\<close>, \<open>getEnvName\<close> and \<open>writePropertyEnvironmentDiagnostics\<close>
  of the package, and \<open>resource.ParsePropertyPath\<close>. Each returns what the Go function
  returns, the error last. \<open>'d\<close> is the type of a diagnostic, and a \<open>time.Duration\<close> is
  an integer.
\<close>

record 'd envCommand =
  getCachedClient :: "error option"
  getEnvName :: "string list \<Rightarrow> string \<times> string \<times> string list \<times> error option"
  ParsePropertyPath :: "string \<Rightarrow> PropertyPath \<times> error option"
  OpenEnvironment :: "string \<Rightarrow> string \<Rightarrow> int \<Rightarrow> string \<times> 'd list \<times> error option"
  GetOpenEnvironment :: "string \<Rightarrow> string \<Rightarrow> string \<Rightarrow> Environment option \<times> error option"
  writePropertyEnvironmentDiagnostics :: "string \<Rightarrow> 'd list \<Rightarrow> string \<times> error option"

text \<open>The remote calls made so far, in order.\<close>

datatype call =
    OpenEnvironmentCall string string int
  | GetOpenEnvironmentCall string string string

definition openEnvironment ::
  "'d envCommand \<Rightarrow> call list \<Rightarrow> string \<Rightarrow> string \<Rightarrow> int
     \<Rightarrow> (Environment option \<times> 'd list \<times> error option) \<times> call list" where
  "openEnvironment C calls orgName envName duration =
     (case OpenEnvironment C orgName envName duration of
        (envID, diags, err) \<Rightarrow>
          let calls1 = calls @ [OpenEnvironmentCall orgName envName duration] in
          if err \<noteq> None then ((None, [], err), calls1)
          else if length diags \<noteq> 0 then ((None, diags, err), calls1)
          else (case GetOpenEnvironment C orgName envName envID of
            (open, err') \<Rightarrow>
              ((open, [], err'), calls1 @ [GetOpenEnvironmentCall orgName envName envID])))"

text \<open>What the command can change: the two streams and the remote calls made.\<close>

record state =
  stdout :: string
  stderr :: string
  calls :: "call list"

text \<open>
  \<open>RunE\<close> of the command, for the flags \<open>format\<close> and \<open>duration\<close> and the arguments
  \<open>args\<close>: the error returned and the state left.
\<close>

definition RunE ::
  "'d envCommand \<Rightarrow> lib \<Rightarrow> string \<Rightarrow> int \<Rightarrow> string list \<Rightarrow> state \<Rightarrow> error option \<times> state" where
  "RunE C L format duration args st =
     (case getCachedClient C of
        Some err \<Rightarrow> (Some err, st)
      | None \<Rightarrow>
     (case getEnvName C args of
        (orgName, envName, args', Some err) \<Rightarrow> (Some err, st)
      | (orgName, envName, args', None) \<Rightarrow>
     (case (if length args' = 1 then ParsePropertyPath C (args' ! 0) else ([], None)) of
        (p, Some err) \<Rightarrow>
          (Some (Error (''invalid property path '' @ args' ! 0 @ '': '' @ message err)), st)
      | (path, None) \<Rightarrow>
     (case (if format = ''detailed'' \<or> format = ''json'' \<or> format = ''string'' then None
            else if format = ''dotenv'' \<or> format = ''shell'' then
              (if length path \<noteq> 0 then
                 Some (Error (''output format '' @ [CHR 0x27] @ format @ [CHR 0x27]
                                @ '' may not be used with a property path''))
               else None)
            else Some (Error (''unknown output format '' @ Quote L format))) of
        Some err \<Rightarrow> (Some err, st)
      | None \<Rightarrow>
     (case openEnvironment C (calls st) orgName envName duration of
        ((env, diags, Some err), calls') \<Rightarrow> (Some err, st\<lparr>calls := calls'\<rparr>)
      | ((env, diags, None), calls') \<Rightarrow>
          if length diags \<noteq> 0 then
            (case writePropertyEnvironmentDiagnostics C (stderr st) diags of
               (stderr', err) \<Rightarrow> (err, st\<lparr>stderr := stderr', calls := calls'\<rparr>))
          else
            (case renderValue L (stdout st) env path format of
               (stdout', err) \<Rightarrow> (err, st\<lparr>stdout := stdout', calls := calls'\<rparr>)))))))"

subsection \<open>Notions used to state the properties\<close>

text \<open>
  A character that \<open>%q\<close> leaves as it is: printable ASCII other than the double quote and
  the backslash.
\<close>

definition plainChar :: "char \<Rightarrow> bool" where
  "plainChar c \<longleftrightarrow>
     (0x20 :: nat) \<le> of_char c \<and> of_char c \<le> (0x7E :: nat) \<and> c \<noteq> dquote \<and> c \<noteq> backslash"

text \<open>The string held by a value (empty when it holds something else).\<close>

definition stringOf :: "Value \<Rightarrow> string" where
  "stringOf v = (case val v of String s \<Rightarrow> s | _ \<Rightarrow> [])"

definition isString :: "Value \<Rightarrow> bool" where
  "isString v = (case val v of String s \<Rightarrow> True | _ \<Rightarrow> False)"

text \<open>The keys of the string-valued entries of a mapping, in byte order.\<close>

definition stringKeys :: "(string, Value) fmap \<Rightarrow> string list" where
  "stringKeys vars = filter (\<lambda>k. isString (index vars k)) (sorted_list_of_set (fmdom' vars))"

text \<open>The line of the entry with key \<open>k\<close>: \<open>KEY=\<close> and the quoted value.\<close>

definition envLine :: "lib \<Rightarrow> (string, Value) fmap \<Rightarrow> string \<Rightarrow> string" where
  "envLine L vars k = k @ ''='' @ Quote L (stringOf (index vars k))"

text \<open>The five formats of the command.\<close>

definition formats :: "string list" where
  "formats = [''json'', ''detailed'', ''dotenv'', ''shell'', ''string'']"

subsection \<open>Example collaborators and trees\<close>

text \<open>
  A library whose \<open>maps.Keys\<close> lists the keys in ascending order, and one that lists them
  in descending order.
\<close>

definition ascLib :: lib where
  "ascLib =
     \<lparr>isPrintTable = (\<lambda>r. False),
      mapsKeys = (\<lambda>m. sorted_list_of_set (fmdom' m)),
      jsonEncode = (\<lambda>j. case j of JSON Nil \<Rightarrow> Inr (''null'' @ [newline]) | _ \<Rightarrow> Inr (''{}'' @ [newline])),
      detailedEncode = (\<lambda>v. Inr (''{}'' @ [newline])),
      ToString = stringOf\<rparr>"

definition descLib :: lib where
  "descLib = ascLib\<lparr>mapsKeys := (\<lambda>m. rev (sorted_list_of_set (fmdom' m)))\<rparr>"

text \<open>The tree \<open>{"environmentVariables": {"B": "2", "A": "1"}}\<close> and its mapping.\<close>

definition varsBA :: "(string, Value) fmap" where
  "varsBA = fmap_of_list [(''B'', NewValue (String ''2'')), (''A'', NewValue (String ''1''))]"

definition treeBA :: Environment where
  "treeBA = \<lparr>Properties = fmap_of_list [(''environmentVariables'', NewValue (Map varsBA))]\<rparr>"

text \<open>The tree \<open>{"x": {"y": 42}}\<close>.\<close>

definition treeXY :: Environment where
  "treeXY =
     \<lparr>Properties = fmap_of_list
        [(''x'', NewValue (Map (fmap_of_list [(''y'', NewValue (Number ''42''))])))]\<rparr>"

text \<open>
  The tree \<open>{"environmentVariables": {"K": "a\"b", "N": 1}}\<close> and its mapping: one string
  with a double quote inside, one number.
\<close>

definition varsQuote :: "(string, Value) fmap" where
  "varsQuote =
     fmap_of_list
       [(''K'', NewValue (String [CHR ''a'', dquote, CHR ''b''])),
        (''N'', NewValue (Number ''1''))]"

definition treeQuote :: Environment where
  "treeQuote =
     \<lparr>Properties = fmap_of_list [(''environmentVariables'', NewValue (Map varsQuote))]\<rparr>"

text \<open>
  A command whose collaborators succeed: the first argument names the environment, a
  second argument is a one-key path, the open call reports nothing and the fetch returns
  \<open>treeBA\<close>. Diagnostics are strings here.
\<close>

definition okCmd :: "string envCommand" where
  "okCmd =
     \<lparr>getCachedClient = None,
      getEnvName = (\<lambda>args. case args of
         [] \<Rightarrow> ([], [], [], Some (Error ''no environment name specified''))
       | a # rest \<Rightarrow> (''org'', a, rest, None)),
      ParsePropertyPath = (\<lambda>s. if s = [] then ([], None) else ([Key s], None)),
      OpenEnvironment = (\<lambda>orgName envName duration. (''session'', [], None)),
      GetOpenEnvironment = (\<lambda>orgName envName envID. (Some treeBA, None)),
      writePropertyEnvironmentDiagnostics = (\<lambda>w diags. (w @ concat diags, None))\<rparr>"

text \<open>The same with an open call that reports a diagnostic, and with one that reports a
  diagnostic together with an error.\<close>

definition diagCmd :: "string envCommand" where
  "diagCmd = okCmd\<lparr>OpenEnvironment := (\<lambda>orgName envName duration. ([], [''unknown property''], None))\<rparr>"

definition diagErrCmd :: "string envCommand" where
  "diagErrCmd =
     okCmd\<lparr>OpenEnvironment :=
       (\<lambda>orgName envName duration. ([], [''unknown property''], Some (Error ''bad request'')))\<rparr>"

definition state0 :: state where
  "state0 = \<lparr>stdout = [], stderr = [], calls = []\<rparr>"

section \<open>Properties\<close>

subsection \<open>Auxiliary facts: quoting, the loop over the keys, the examples\<close>

lemma headRune_ascii: "of_char c < (0x80 :: nat) \<Longrightarrow> headRune (c # cs) = (of_char c, 1)"
  by (simp add: headRune_def RuneSelf_def)

lemma quoteLoop_ascii:
  "of_char c < (0x80 :: nat) \<Longrightarrow>
     quoteLoop L (c # cs) = appendEscapedRune L (of_char c) @ quoteLoop L cs"
  by (simp add: headRune_ascii RuneError_def)

lemma of_char_dquote: "(of_char c :: nat) = 34 \<longleftrightarrow> c = dquote"
  using of_char_eq_iff [of c dquote, where ?'a = nat] by simp

lemma of_char_backslash: "(of_char c :: nat) = 92 \<longleftrightarrow> c = backslash"
  using of_char_eq_iff [of c backslash, where ?'a = nat] by simp

lemma appendEscapedRune_plain: "plainChar c \<Longrightarrow> appendEscapedRune L (of_char c) = [c]"
  by (simp add: plainChar_def appendEscapedRune_def IsPrint_def AppendRune_def
      of_char_dquote of_char_backslash)

lemma quoteLoop_plain: "list_all plainChar s \<Longrightarrow> quoteLoop L (s @ t) = s @ quoteLoop L t"
proof (induction s)
  case Nil
  then show ?case by simp
next
  case (Cons c s)
  then have "plainChar c" and "list_all plainChar s" by simp_all
  then have "of_char c < (0x80 :: nat)" by (simp add: plainChar_def)
  then have "quoteLoop L ((c # s) @ t) = appendEscapedRune L (of_char c) @ quoteLoop L (s @ t)"
    by (simp add: quoteLoop_ascii del: quoteLoop.simps)
  with Cons \<open>plainChar c\<close> show ?case by (simp add: appendEscapedRune_plain del: quoteLoop.simps)
qed

lemma quoteLoop_dquote: "quoteLoop L (dquote # t) = [backslash, dquote] @ quoteLoop L t"
  by (simp add: quoteLoop_ascii appendEscapedRune_def char_of_eq_iff del: quoteLoop.simps)

lemma quoteLoop_backslash: "quoteLoop L (backslash # t) = [backslash, backslash] @ quoteLoop L t"
  by (simp add: quoteLoop_ascii appendEscapedRune_def char_of_eq_iff del: quoteLoop.simps)

lemma quoteLoop_newline: "quoteLoop L (newline # t) = [backslash, CHR ''n''] @ quoteLoop L t"
  by (simp add: quoteLoop_ascii appendEscapedRune_def IsPrint_def del: quoteLoop.simps)

lemma Quote_plain: "list_all plainChar s \<Longrightarrow> Quote L s = dquote # s @ [dquote]"
  using quoteLoop_plain [of s L "[]"] by (simp add: Quote_def)

lemma first_Some:
  "first s0 = Some (sz, lo, hi) \<Longrightarrow> 2 \<le> sz \<and> sz \<le> 4 \<and> 0x80 \<le> lo"
  by (auto simp: first_def split: if_splits)

lemma DecodeRuneInString_append_ascii:
  assumes "of_char c < (0x80 :: nat)"
  shows "DecodeRuneInString (x # a @ c # b) = DecodeRuneInString (x # a)
       \<and> snd (DecodeRuneInString (x # a)) \<le> length (x # a)"
proof (cases "first (of_char x)")
  case None
  then show ?thesis by (simp add: DecodeRuneInString_def)
next
  case (Some t)
  obtain sz lo hi where t: "t = (sz, lo, hi)" by (cases t)
  from Some t have f: "first (of_char x) = Some (sz, lo, hi)" by simp
  from first_Some [OF f] have sz: "sz = 2 \<or> sz = 3 \<or> sz = 4" and lo: "0x80 \<le> lo" by auto
  consider "a = []" | a1 where "a = [a1]" | a1 a2 where "a = [a1, a2]"
    | a1 a2 a3 r where "a = a1 # a2 # a3 # r"
    by (metis list.exhaust)
  then show ?thesis
  proof cases
    case 1
    with assms f sz lo show ?thesis by (auto simp: DecodeRuneInString_def)
  next
    case 2
    with assms f sz lo show ?thesis by (auto simp: DecodeRuneInString_def)
  next
    case 3
    with assms f sz lo show ?thesis by (auto simp: DecodeRuneInString_def)
  next
    case 4
    with assms f sz lo show ?thesis by (auto simp: DecodeRuneInString_def)
  qed
qed


lemma headRune_append_ascii:
  assumes "of_char c < (0x80 :: nat)"
  shows "headRune (x # a @ c # b) = headRune (x # a)"
    and "snd (headRune (x # a)) \<le> length (x # a)"
  using DecodeRuneInString_append_ascii [OF assms, of x a b]
  by (simp_all add: headRune_def)

lemma headRune_width: "1 \<le> snd (headRune (x # a))"
  by (auto simp: headRune_def DecodeRuneInString_def split: option.splits)

lemma quoteLoop_append_ascii:
  assumes "of_char c < (0x80 :: nat)"
  shows "quoteLoop L (a @ c # b) = quoteLoop L a @ quoteLoop L (c # b)"
proof (induction a rule: length_induct)
  case (1 a)
  show ?case
  proof (cases a)
    case Nil
    then show ?thesis by simp
  next
    case (Cons x a')
    let ?w = "snd (headRune (x # a'))"
    have w: "1 \<le> ?w" "?w \<le> length (x # a')"
      using headRune_width [of x a'] headRune_append_ascii(2) [OF assms, of x a'] by simp_all
    have h: "headRune (x # a' @ c # b) = headRune (x # a')"
      by (rule headRune_append_ascii(1) [OF assms])
    have d: "drop ?w (x # a' @ c # b) = drop ?w (x # a') @ c # b"
      using w(2) drop_append [of ?w "x # a'" "c # b"] by simp
    have "length (drop ?w (x # a')) < length a"
      using w(1) by (simp add: Cons)
    with 1 have ih: "quoteLoop L (drop ?w (x # a') @ c # b)
        = quoteLoop L (drop ?w (x # a')) @ quoteLoop L (c # b)"
      by blast
    have "quoteLoop L (x # a' @ c # b)
        = (if ?w = 1 \<and> fst (headRune (x # a')) = RuneError then
             [backslash, CHR ''x'', lowerhex (drop_bit 4 (of_char x)), lowerhex (of_char x AND 0xF)]
           else appendEscapedRune L (fst (headRune (x # a'))))
          @ quoteLoop L (drop ?w (x # a') @ c # b)"
      by (simp only: quoteLoop.simps(2) h d)
    also have "\<dots> = quoteLoop L (x # a') @ quoteLoop L (c # b)"
      by (simp only: quoteLoop.simps(2) [of L x a'] ih append_assoc)
    finally show ?thesis by (simp only: Cons append_Cons)
  qed
qed

lemma fold_write: "fold (\<lambda>kvp w. w @ f kvp) xs out = out @ concat (map f xs)"
  by (induction xs arbitrary: out) simp_all

lemma environLoop_eq:
  "environLoop L vars environ keys =
     environ @ map (envLine L vars) (filter (\<lambda>k. isString (index vars k)) keys)"
  by (induction keys arbitrary: environ)
    (auto simp: envLine_def isString_def stringOf_def split: any.splits)

lemma sort_mapsKeys:
  assumes "keysOf L vars"
  shows "sort (mapsKeys L vars) = sorted_list_of_set (fmdom' vars)"
proof -
  from assms have "distinct (mapsKeys L vars)" and "set (mapsKeys L vars) = fmdom' vars"
    by (simp_all add: keysOf_def)
  then show ?thesis
    by (metis distinct_remdups_id sorted_list_of_set_sort_remdups)
qed

lemma getEnvironmentVariables_Map:
  assumes "val (index (Properties env) ''environmentVariables'') = Map vars" and "keysOf L vars"
  shows "getEnvironmentVariables L env = map (envLine L vars) (stringKeys vars)"
  using assms by (simp add: getEnvironmentVariables_def environLoop_eq sort_mapsKeys stringKeys_def)

lemma keysOf_ascLib: "keysOf ascLib m"
  by (simp add: keysOf_def ascLib_def)

lemma keysOf_descLib: "keysOf descLib m"
  by (simp add: keysOf_def descLib_def ascLib_def)

lemma stringKeys_sorted: "sorted (stringKeys vars)"
  by (simp add: stringKeys_def sorted_wrt_filter)

lemma stringKeys_distinct: "distinct (stringKeys vars)"
  by (simp add: stringKeys_def)

lemma stringKeys_set: "set (stringKeys vars) = {k. isString (index vars k)}"
  by (auto simp: stringKeys_def isString_def index_def zeroValue_def fmlookup_dom'_iff
      split: option.splits)

lemma sort_mapsKeys_eqI:
  assumes "keysOf L vars" and "sorted ks" and "distinct ks" and "set ks = fmdom' vars"
  shows "sort (mapsKeys L vars) = ks"
  using assms sort_mapsKeys [of L vars] sorted_list_of_set.idem_if_sorted_distinct [of ks]
  by simp

lemma treeBA_vars: "val (index (Properties treeBA) ''environmentVariables'') = Map varsBA"
  by (simp add: treeBA_def index_def NewValue_def)

lemma treeBA_lines:
  assumes "keysOf L varsBA"
  shows "getEnvironmentVariables L treeBA =
     [''A='' @ [dquote] @ ''1'' @ [dquote], ''B='' @ [dquote] @ ''2'' @ [dquote]]"
proof -
  have "sort (mapsKeys L varsBA) = [''A'', ''B'']"
    using assms by (rule sort_mapsKeys_eqI) (auto simp: varsBA_def)
  moreover have "getEnvironmentVariables L treeBA = environLoop L varsBA [] (sort (mapsKeys L varsBA))"
    by (simp add: getEnvironmentVariables_def treeBA_vars)
  ultimately show ?thesis
    by (simp add: index_def NewValue_def Quote_plain plainChar_def varsBA_def)
qed

lemma envLine_String:
  "fmlookup vars k = Some v \<Longrightarrow> val v = String s \<Longrightarrow> envLine L vars k = k @ ''='' @ Quote L s"
  by (simp add: envLine_def index_def stringOf_def)

lemma render_dotenv_Map:
  assumes "val (index (Properties env) ''environmentVariables'') = Map vars" and "keysOf L vars"
  shows "renderValue L out (Some env) path ''dotenv''
     = (out @ concat (map (\<lambda>k. envLine L vars k @ [newline]) (stringKeys vars)), None)"
  using assms
  by (simp add: renderValue_def Let_def fold_write getEnvironmentVariables_Map comp_def)

lemma render_shell_Map:
  assumes "val (index (Properties env) ''environmentVariables'') = Map vars" and "keysOf L vars"
  shows "renderValue L out (Some env) path ''shell''
     = (out @ concat (map (\<lambda>k. ''export '' @ envLine L vars k @ [newline]) (stringKeys vars)), None)"
  using assms
  by (simp add: renderValue_def Let_def fold_write getEnvironmentVariables_Map comp_def)

lemma treeQuote_vars: "val (index (Properties treeQuote) ''environmentVariables'') = Map varsQuote"
  by (simp add: treeQuote_def index_def NewValue_def)

lemma treeQuote_stringKeys: "stringKeys varsQuote = [''K'']"
proof -
  have "sorted_list_of_set {''K'', ''N''} = [''K'', ''N'']"
    using sorted_list_of_set.idem_if_sorted_distinct [of "[''K'', ''N'']"] by simp
  then show ?thesis
    by (simp add: stringKeys_def isString_def index_def NewValue_def varsQuote_def)
qed

lemma Quote_a_dquote_b:
  "Quote L [CHR ''a'', dquote, CHR ''b''] = [dquote, CHR ''a'', backslash, dquote, CHR ''b'', dquote]"
  using quoteLoop_plain [of "[CHR ''a'']" L "[dquote, CHR ''b'']"]
    quoteLoop_dquote [of L "[CHR ''b'']"] quoteLoop_plain [of "[CHR ''b'']" L "[]"]
  by (simp add: Quote_def plainChar_def del: quoteLoop.simps(2))

lemma getEnvironmentVariables_not_Map:
  "\<forall>vars. val (index (Properties env) ''environmentVariables'') \<noteq> Map vars \<Longrightarrow>
     getEnvironmentVariables L env = []"
  by (simp add: getEnvironmentVariables_def split: any.splits)

lemma isString_iff: "isString v \<longleftrightarrow> (\<exists>s. val v = String s)"
  by (cases "val v") (simp_all add: isString_def)

lemma index_absent: "fmlookup m k = None \<Longrightarrow> val (index m k) = Nil"
  by (simp add: index_def zeroValue_def)

lemma render_no_lines:
  assumes "getEnvironmentVariables L env = []"
  shows "renderValue L out (Some env) path ''dotenv'' = (out, None)"
    and "renderValue L out (Some env) path ''shell'' = (out, None)"
  using assms by (simp_all add: renderValue_def Let_def)

lemma treeXY_absent: "fmlookup (Properties treeXY) ''environmentVariables'' = None"
  by (simp add: treeXY_def)

lemma appendEscapedRune_mapsKeys:
  "appendEscapedRune (L\<lparr>mapsKeys := K\<rparr>) r = appendEscapedRune L r"
  by (simp add: appendEscapedRune_def IsPrint_def)

lemma quoteLoop_mapsKeys: "quoteLoop (L\<lparr>mapsKeys := K\<rparr>) s = quoteLoop L s"
proof (induction L s rule: quoteLoop.induct)
  case (1 L)
  show ?case by simp
next
  case (2 L c cs)
  then show ?case by (simp only: quoteLoop.simps(2) appendEscapedRune_mapsKeys)
qed

lemma Quote_mapsKeys: "Quote (L\<lparr>mapsKeys := K\<rparr>) s = Quote L s"
  by (simp add: Quote_def quoteLoop_mapsKeys)

lemma envLine_mapsKeys: "envLine (L\<lparr>mapsKeys := K\<rparr>) vars k = envLine L vars k"
  by (simp add: envLine_def Quote_mapsKeys)

lemma getEnvironmentVariables_mapsKeys:
  assumes "\<And>m. keysOf L m" and "\<And>m. keysOf (L\<lparr>mapsKeys := K\<rparr>) m"
  shows "getEnvironmentVariables (L\<lparr>mapsKeys := K\<rparr>) env = getEnvironmentVariables L env"
proof (cases "\<exists>vars. val (index (Properties env) ''environmentVariables'') = Map vars")
  case True
  then obtain vars where "val (index (Properties env) ''environmentVariables'') = Map vars" ..
  then show ?thesis
    using assms by (simp add: getEnvironmentVariables_Map envLine_mapsKeys)
next
  case False
  then show ?thesis by (simp add: getEnvironmentVariables_not_Map)
qed

lemma ToJSON_zeroValue: "ToJSON zeroValue = JSON Nil"
  by (simp add: zeroValue_def)

lemma treeXY_miss:
  "getEnvValue (NewValue (Map (Properties treeXY))) [Key ''x'', Key ''z''] = None"
  by (simp add: treeXY_def NewValue_def)

lemma openEnvironment_diags:
  assumes "OpenEnvironment C orgName envName duration = (envID, diags, err)" and "diags \<noteq> []"
  shows "openEnvironment C cs orgName envName duration
     = ((None, (if err = None then diags else []), err),
        cs @ [OpenEnvironmentCall orgName envName duration])"
  using assms by (simp add: openEnvironment_def Let_def)

subsection \<open>A nil environment\<close>

text \<open>
  C10. Called with a nil environment, \<open>renderValue\<close> writes nothing and returns no error,
  whatever the path and the format, an unknown format included.
\<close>

theorem renderValue_nil_env: "renderValue L out None path format = (out, None)"
  by (simp add: renderValue_def)

subsection \<open>dotenv and shell\<close>


text \<open>
  C4. When \<open>maps.Keys\<close> lists every key of a map once, in whatever order, the dotenv and
  shell renderers write the string-valued entries of the \<open>environmentVariables\<close> mapping
  in ascending byte order of their keys, one line per entry. For the tree
  \<open>{"environmentVariables": {"B": "2", "A": "1"}}\<close> with the empty path the dotenv output
  is exactly the line \<open>A="1"\<close> followed by the line \<open>B="2"\<close>, and the shell output the
  same two lines with \<open>export \<close> in front.
\<close>

theorem dotenv_shell_sorted_by_key:
  assumes "\<And>m. keysOf L m"
  shows "(val (index (Properties env) ''environmentVariables'') = Map vars \<longrightarrow>
            sorted (stringKeys vars) \<and> distinct (stringKeys vars)
          \<and> set (stringKeys vars) = {k. isString (index vars k)}
          \<and> getEnvironmentVariables L env = map (envLine L vars) (stringKeys vars)
          \<and> renderValue L out (Some env) [] ''dotenv''
              = (out @ concat (map (\<lambda>k. envLine L vars k @ [newline]) (stringKeys vars)), None)
          \<and> renderValue L out (Some env) [] ''shell''
              = (out @ concat (map (\<lambda>k. ''export '' @ envLine L vars k @ [newline])
                   (stringKeys vars)), None))
       \<and> renderValue L [] (Some treeBA) [] ''dotenv''
           = (''A='' @ [dquote] @ ''1'' @ [dquote, newline]
              @ ''B='' @ [dquote] @ ''2'' @ [dquote, newline], None)
       \<and> renderValue L [] (Some treeBA) [] ''shell''
           = (''export A='' @ [dquote] @ ''1'' @ [dquote, newline]
              @ ''export B='' @ [dquote] @ ''2'' @ [dquote, newline], None)"
proof -
  have "getEnvironmentVariables L treeBA =
     [''A='' @ [dquote] @ ''1'' @ [dquote], ''B='' @ [dquote] @ ''2'' @ [dquote]]"
    by (rule treeBA_lines) (rule assms)
  then have "renderValue L [] (Some treeBA) [] ''dotenv''
           = (''A='' @ [dquote] @ ''1'' @ [dquote, newline]
              @ ''B='' @ [dquote] @ ''2'' @ [dquote, newline], None)"
    and "renderValue L [] (Some treeBA) [] ''shell''
           = (''export A='' @ [dquote] @ ''1'' @ [dquote, newline]
              @ ''export B='' @ [dquote] @ ''2'' @ [dquote, newline], None)"
    by (simp_all add: renderValue_def Let_def)
  then show ?thesis
    using assms
    by (simp add: stringKeys_sorted stringKeys_distinct stringKeys_set getEnvironmentVariables_Map
        render_dotenv_Map render_shell_Map)
qed

text \<open>The tree of the claim with a \<open>maps.Keys\<close> that lists \<open>B\<close> before \<open>A\<close>.\<close>

theorem dotenv_shell_sorted_by_key_witness:
  "renderValue descLib [] (Some treeBA) [] ''dotenv''
     = (''A='' @ [dquote] @ ''1'' @ [dquote, newline] @ ''B='' @ [dquote] @ ''2'' @ [dquote, newline],
        None)
   \<and> mapsKeys descLib varsBA
       = [''B'', ''A'']"
proof -
  have "sorted_list_of_set {''B'', ''A''} = [''A'', ''B'']"
    using sorted_list_of_set.idem_if_sorted_distinct [of "[''A'', ''B'']"] by (simp add: insert_commute)
  then have "mapsKeys descLib varsBA
       = [''B'', ''A'']"
    by (simp add: descLib_def ascLib_def varsBA_def)
  then show ?thesis
    using dotenv_shell_sorted_by_key [of descLib treeBA, OF keysOf_descLib] by simp
qed

subsection \<open>The value of an entry is quoted with \<open>%q\<close>\<close>

text \<open>
  C1, as amended. For every entry of the \<open>environmentVariables\<close> mapping whose value is a
  string, the dotenv renderer writes exactly one line, at the key's place in byte order:
  the key, \<open>=\<close>, and the value as \<open>%q\<close> (\<open>strconv.Quote\<close>) renders it, between double
  quotes. Every double quote in the value is written as backslash and double quote,
  every backslash as two backslashes and every newline as backslash and \<open>n\<close>, wherever
  it stands in the value. A run of printable ASCII characters other than the double
  quote and the backslash at the start of what is left to quote is written as it is, so
  that a value made of such characters alone appears verbatim between the quotes.
\<close>

theorem dotenv_line_quoted:
  assumes "keysOf L vars"
    and "val (index (Properties env) ''environmentVariables'') = Map vars"
    and "fmlookup vars k = Some v"
    and "val v = String s"
  shows "(\<exists>pre post. stringKeys vars = pre @ k # post \<and> k \<notin> set pre \<and> k \<notin> set post
            \<and> renderValue L out (Some env) [] ''dotenv''
                = (out @ concat (map (\<lambda>k'. envLine L vars k' @ [newline]) pre)
                       @ (k @ ''='' @ Quote L s @ [newline])
                       @ concat (map (\<lambda>k'. envLine L vars k' @ [newline]) post), None))
       \<and> Quote L s = dquote # quoteLoop L s @ [dquote]
       \<and> (list_all plainChar s \<longrightarrow> Quote L s = dquote # s @ [dquote])
       \<and> (\<forall>a b. s = a @ dquote # b \<longrightarrow>
              Quote L s = dquote # quoteLoop L a @ [backslash, dquote] @ quoteLoop L b @ [dquote])
       \<and> (\<forall>a b. s = a @ backslash # b \<longrightarrow>
              Quote L s = dquote # quoteLoop L a @ [backslash, backslash] @ quoteLoop L b @ [dquote])
       \<and> (\<forall>a b. s = a @ newline # b \<longrightarrow>
              Quote L s = dquote # quoteLoop L a @ [backslash, CHR ''n''] @ quoteLoop L b @ [dquote])
       \<and> (\<forall>a b. list_all plainChar a \<longrightarrow> quoteLoop L (a @ b) = a @ quoteLoop L b)"
proof -
  have "isString (index vars k)"
    using assms(3,4) by (simp add: isString_def index_def)
  then have "k \<in> set (stringKeys vars)" by (simp add: stringKeys_set)
  then obtain pre post where split: "stringKeys vars = pre @ k # post"
    by (auto dest: split_list)
  have "distinct (pre @ k # post)"
    using stringKeys_distinct [of vars] by (simp add: split)
  then have notin: "k \<notin> set pre" "k \<notin> set post" by auto
  have line: "envLine L vars k = k @ ''='' @ Quote L s"
    using assms(3,4) by (rule envLine_String)
  have "renderValue L out (Some env) [] ''dotenv''
     = (out @ concat (map (\<lambda>k'. envLine L vars k' @ [newline]) pre)
            @ (k @ ''='' @ Quote L s @ [newline])
            @ concat (map (\<lambda>k'. envLine L vars k' @ [newline]) post), None)"
    using assms(1,2) by (simp add: render_dotenv_Map split line)
  with split notin have first: "\<exists>pre post. stringKeys vars = pre @ k # post
      \<and> k \<notin> set pre \<and> k \<notin> set post
      \<and> renderValue L out (Some env) [] ''dotenv''
          = (out @ concat (map (\<lambda>k'. envLine L vars k' @ [newline]) pre)
                 @ (k @ ''='' @ Quote L s @ [newline])
                 @ concat (map (\<lambda>k'. envLine L vars k' @ [newline]) post), None)"
    by blast
  have esc: "of_char c < (0x80 :: nat) \<Longrightarrow>
      quoteLoop L (a @ c # b) = quoteLoop L a @ quoteLoop L (c # b)" for a b c
    by (rule quoteLoop_append_ascii)
  have q0: "Quote L s = dquote # quoteLoop L s @ [dquote]"
    by (simp add: Quote_def)
  have q1: "list_all plainChar s \<longrightarrow> Quote L s = dquote # s @ [dquote]"
    by (simp add: Quote_plain)
  have q2: "\<forall>a b. s = a @ dquote # b \<longrightarrow>
              Quote L s = dquote # quoteLoop L a @ [backslash, dquote] @ quoteLoop L b @ [dquote]"
    by (simp add: Quote_def esc quoteLoop_dquote del: quoteLoop.simps(2))
  have q3: "\<forall>a b. s = a @ backslash # b \<longrightarrow>
              Quote L s = dquote # quoteLoop L a @ [backslash, backslash] @ quoteLoop L b @ [dquote]"
    by (simp add: Quote_def esc quoteLoop_backslash del: quoteLoop.simps(2))
  have q4: "\<forall>a b. s = a @ newline # b \<longrightarrow>
              Quote L s = dquote # quoteLoop L a @ [backslash, CHR ''n''] @ quoteLoop L b @ [dquote]"
    by (simp add: Quote_def esc quoteLoop_newline del: quoteLoop.simps(2))
  have q5: "\<forall>a b. list_all plainChar a \<longrightarrow> quoteLoop L (a @ b) = a @ quoteLoop L b"
    by (simp add: quoteLoop_plain)
  from first q0 q1 q2 q3 q4 q5 show ?thesis by blast
qed

text \<open>The entry \<open>K\<close> of \<open>treeQuote\<close>, whose value is \<open>a"b\<close>.\<close>

theorem dotenv_line_quoted_witness:
  "renderValue ascLib [] (Some treeQuote) [] ''dotenv''
     = (''K='' @ [dquote, CHR ''a'', backslash, dquote, CHR ''b'', dquote, newline], None)"
proof -
  have "fmlookup varsQuote ''K'' = Some (NewValue (String [CHR ''a'', dquote, CHR ''b'']))"
    by (simp add: varsQuote_def)
  moreover have "val (NewValue (String [CHR ''a'', dquote, CHR ''b''])) = String [CHR ''a'', dquote, CHR ''b'']"
    by (simp add: NewValue_def)
  ultimately show ?thesis
    using dotenv_line_quoted [of ascLib varsQuote treeQuote "''K''" _ "[CHR ''a'', dquote, CHR ''b'']" "[]",
        OF keysOf_ascLib treeQuote_vars]
    by (auto simp: treeQuote_stringKeys Cons_eq_append_conv append_eq_Cons_conv Quote_a_dquote_b)
qed

text \<open>
  C1 as stated fails: the value \<open>a"b\<close> is not written verbatim between the quotes; the
  line is \<open>K="a\"b"\<close>, with a backslash before the embedded quote.
\<close>

theorem dotenv_verbatim_counterexample:
  "renderValue ascLib [] (Some treeQuote) [] ''dotenv''
     = (''K='' @ [dquote, CHR ''a'', backslash, dquote, CHR ''b'', dquote, newline], None)
   \<and> renderValue ascLib [] (Some treeQuote) [] ''dotenv''
     \<noteq> (''K='' @ [dquote] @ [CHR ''a'', dquote, CHR ''b''] @ [dquote, newline], None)"
proof -
  have "renderValue ascLib [] (Some treeQuote) [] ''dotenv''
     = ([] @ concat (map (\<lambda>k. envLine ascLib varsQuote k @ [newline]) (stringKeys varsQuote)), None)"
    by (rule render_dotenv_Map [OF treeQuote_vars keysOf_ascLib])
  then have "renderValue ascLib [] (Some treeQuote) [] ''dotenv''
     = (envLine ascLib varsQuote ''K'' @ [newline], None)"
    by (simp add: treeQuote_stringKeys)
  moreover have "envLine ascLib varsQuote ''K'' = ''K='' @ Quote ascLib [CHR ''a'', dquote, CHR ''b'']"
    by (simp add: envLine_def index_def stringOf_def NewValue_def varsQuote_def)
  ultimately show ?thesis
    by (simp add: Quote_a_dquote_b)
qed

subsection \<open>Absent mappings and values that are not strings\<close>

text \<open>
  C9. When the top-level property \<open>environmentVariables\<close> does not hold a mapping, and in
  particular when it is absent, the dotenv and shell renderers write no line and return
  no error. When it holds a mapping (and \<open>maps.Keys\<close> lists each of its keys once), the
  lines written are those of the entries whose value is a string, one each: an entry
  whose value is not a string has no line, and no error is returned.
\<close>

theorem dotenv_shell_skip_non_strings:
  "((\<forall>vars. val (index (Properties env) ''environmentVariables'') \<noteq> Map vars) \<longrightarrow>
       getEnvironmentVariables L env = []
     \<and> renderValue L out (Some env) path ''dotenv'' = (out, None)
     \<and> renderValue L out (Some env) path ''shell'' = (out, None))
   \<and> (fmlookup (Properties env) ''environmentVariables'' = None \<longrightarrow>
       getEnvironmentVariables L env = []
     \<and> renderValue L out (Some env) path ''dotenv'' = (out, None)
     \<and> renderValue L out (Some env) path ''shell'' = (out, None))
   \<and> (val (index (Properties env) ''environmentVariables'') = Map vars \<and> keysOf L vars \<longrightarrow>
       getEnvironmentVariables L env = map (envLine L vars) (stringKeys vars)
     \<and> distinct (stringKeys vars)
     \<and> set (stringKeys vars) = {k. \<exists>v s. fmlookup vars k = Some v \<and> val v = String s}
     \<and> (\<forall>k v. fmlookup vars k = Some v \<and> \<not> isString v \<longrightarrow> k \<notin> set (stringKeys vars))
     \<and> snd (renderValue L out (Some env) path ''dotenv'') = None
     \<and> snd (renderValue L out (Some env) path ''shell'') = None)"
proof -
  have a: "(\<forall>vars. val (index (Properties env) ''environmentVariables'') \<noteq> Map vars) \<longrightarrow>
       getEnvironmentVariables L env = []
     \<and> renderValue L out (Some env) path ''dotenv'' = (out, None)
     \<and> renderValue L out (Some env) path ''shell'' = (out, None)"
    using getEnvironmentVariables_not_Map [of env L] render_no_lines [of L env out path] by blast
  have "fmlookup (Properties env) ''environmentVariables'' = None \<Longrightarrow>
      \<forall>vars. val (index (Properties env) ''environmentVariables'') \<noteq> Map vars"
    by (simp add: index_absent)
  with a have b: "fmlookup (Properties env) ''environmentVariables'' = None \<longrightarrow>
       getEnvironmentVariables L env = []
     \<and> renderValue L out (Some env) path ''dotenv'' = (out, None)
     \<and> renderValue L out (Some env) path ''shell'' = (out, None)"
    by blast
  have s1: "set (stringKeys vars) = {k. \<exists>v s. fmlookup vars k = Some v \<and> val v = String s}"
    by (auto simp: stringKeys_set isString_iff index_def zeroValue_def split: option.splits)
  have s2: "\<forall>k v. fmlookup vars k = Some v \<and> \<not> isString v \<longrightarrow> k \<notin> set (stringKeys vars)"
    by (simp add: stringKeys_set index_def)
  have c: "val (index (Properties env) ''environmentVariables'') = Map vars \<and> keysOf L vars \<longrightarrow>
       getEnvironmentVariables L env = map (envLine L vars) (stringKeys vars)
     \<and> snd (renderValue L out (Some env) path ''dotenv'') = None
     \<and> snd (renderValue L out (Some env) path ''shell'') = None"
    by (simp add: getEnvironmentVariables_Map render_dotenv_Map render_shell_Map)
  from a b c s1 s2 stringKeys_distinct [of vars] show ?thesis by blast
qed

text \<open>
  The tree \<open>{"x": {"y": 42}}\<close> has no \<open>environmentVariables\<close>; in \<open>treeQuote\<close> the entry
  \<open>N\<close> holds a number and only \<open>K\<close> has a line.
\<close>

theorem dotenv_shell_skip_non_strings_witness:
  "renderValue ascLib [] (Some treeXY) [] ''dotenv'' = ([], None)
   \<and> renderValue ascLib [] (Some treeXY) [] ''shell'' = ([], None)
   \<and> fmlookup varsQuote ''N'' = Some (NewValue (Number ''1''))
   \<and> getEnvironmentVariables ascLib treeQuote = [envLine ascLib varsQuote ''K'']"
proof -
  have a: "renderValue ascLib [] (Some treeXY) [] ''dotenv'' = ([], None)
      \<and> renderValue ascLib [] (Some treeXY) [] ''shell'' = ([], None)"
    using dotenv_shell_skip_non_strings [of treeXY ascLib "[]" "[]" varsQuote]
    by (simp add: treeXY_absent)
  have b: "getEnvironmentVariables ascLib treeQuote = map (envLine ascLib varsQuote) (stringKeys varsQuote)"
    using dotenv_shell_skip_non_strings [of treeQuote ascLib "[]" "[]" varsQuote]
    by (simp add: treeQuote_vars keysOf_ascLib)
  have c: "fmlookup varsQuote ''N'' = Some (NewValue (Number ''1''))"
    by (simp add: varsQuote_def)
  from a b c show ?thesis by (simp add: treeQuote_stringKeys)
qed

subsection \<open>Determinism\<close>

text \<open>
  C8. The one place where two runs of \<open>renderValue\<close> on the same tree, path and format
  can differ is the order in which \<open>maps.Keys\<close> lists the keys. Whatever that order is
  in each run (each key once), the stream written and the error returned are the same.
\<close>

theorem renderValue_deterministic:
  assumes "\<And>m. keysOf L m" and "\<And>m. keysOf (L\<lparr>mapsKeys := K\<rparr>) m"
  shows "renderValue (L\<lparr>mapsKeys := K\<rparr>) out env path format = renderValue L out env path format"
proof (cases env)
  case None
  then show ?thesis by (simp add: renderValue_def)
next
  case (Some e)
  have "getEnvironmentVariables (L\<lparr>mapsKeys := K\<rparr>) e = getEnvironmentVariables L e"
    using assms by (rule getEnvironmentVariables_mapsKeys)
  then show ?thesis
    by (simp add: Some renderValue_def Let_def Quote_mapsKeys)
qed

text \<open>\<open>treeBA\<close> in shell format, the keys listed in ascending and in descending order.\<close>

theorem renderValue_deterministic_witness:
  "mapsKeys descLib varsBA = [''B'', ''A''] \<and> mapsKeys ascLib varsBA = [''A'', ''B'']
   \<and> renderValue descLib [] (Some treeBA) [] ''shell'' = renderValue ascLib [] (Some treeBA) [] ''shell''"
proof -
  have "sorted_list_of_set {''B'', ''A''} = [''A'', ''B'']"
    using sorted_list_of_set.idem_if_sorted_distinct [of "[''A'', ''B'']"] by (simp add: insert_commute)
  then have "mapsKeys descLib varsBA = [''B'', ''A'']" and "mapsKeys ascLib varsBA = [''A'', ''B'']"
    by (simp_all add: descLib_def ascLib_def varsBA_def)
  moreover have "renderValue descLib [] (Some treeBA) [] ''shell'' = renderValue ascLib [] (Some treeBA) [] ''shell''"
    unfolding descLib_def
    by (rule renderValue_deterministic) (simp_all add: keysOf_ascLib keysOf_descLib [unfolded descLib_def])
  ultimately show ?thesis by simp
qed

subsection \<open>A path that does not resolve\<close>

text \<open>
  C5. When the property path does not resolve in the tree, \<open>renderValue\<close> does not fail:
  it renders the zero \<open>Value\<close> in the requested format. For json the body is nil, so the
  output is what the JSON encoder writes for nil, \<open>null\<close> and a newline, and no error is
  returned; detailed writes the encoding of the zero value, string writes its string
  form and a newline, and dotenv and shell return no error either.
\<close>

theorem lookup_miss_renders_zero_value:
  assumes "getEnvValue (NewValue (Map (Properties env))) path = None"
  shows "renderValue L out (Some env) path ''json'' = Encode (jsonEncode L) out (JSON Nil)
       \<and> (jsonEncode L (JSON Nil) = Inr (''null'' @ [newline]) \<longrightarrow>
            renderValue L out (Some env) path ''json'' = (out @ ''null'' @ [newline], None))
       \<and> renderValue L out (Some env) path ''detailed'' = Encode (detailedEncode L) out zeroValue
       \<and> (\<forall>s. detailedEncode L zeroValue = Inr s \<longrightarrow>
            renderValue L out (Some env) path ''detailed'' = (out @ s, None))
       \<and> renderValue L out (Some env) path ''string''
            = (out @ ToString L zeroValue @ [newline], None)
       \<and> snd (renderValue L out (Some env) path ''dotenv'') = None
       \<and> snd (renderValue L out (Some env) path ''shell'') = None"
proof -
  from assms have "path \<noteq> []" by (cases path) simp_all
  with assms show ?thesis
    by (simp add: renderValue_def Let_def ToJSON_zeroValue Encode_def)
qed

text \<open>The path \<open>x.z\<close> in the tree \<open>{"x": {"y": 42}}\<close>, in json format.\<close>

theorem lookup_miss_renders_zero_value_witness:
  "getEnvValue (NewValue (Map (Properties treeXY))) [Key ''x'', Key ''z''] = None
   \<and> renderValue ascLib [] (Some treeXY) [Key ''x'', Key ''z''] ''json'' = (''null'' @ [newline], None)"
proof -
  have "jsonEncode ascLib (JSON Nil) = Inr (''null'' @ [newline])"
    by (simp add: ascLib_def)
  then show ?thesis
    using lookup_miss_renders_zero_value [of treeXY "[Key ''x'', Key ''z'']" ascLib "[]"] treeXY_miss
    by (simp add: Encode_def)
qed

subsection \<open>Diagnostics of the open call\<close>

text \<open>
  C2, as amended. When the remote open call returns a non-empty list of diagnostics,
  \<open>openEnvironment\<close> makes no fetch call and returns no environment; it returns the
  diagnostics when the open call returned no error, and the error alone when it
  returned one. The command then renders nothing: standard output is left as it was and
  the only remote call made, if any, is the open call. When the earlier steps succeeded
  and the open call returned no error, the command reports the diagnostics on standard
  error and returns what that report returns.
\<close>

theorem diagnostics_stop_the_fetch:
  assumes "OpenEnvironment C orgName envName duration = (envID, diags, err)" and "diags \<noteq> []"
  shows "openEnvironment C cs orgName envName duration
           = ((None, (if err = None then diags else []), err),
              cs @ [OpenEnvironmentCall orgName envName duration])
       \<and> (getEnvName C args = (orgName, envName, args', e) \<longrightarrow>
            stdout (snd (RunE C L format duration args st)) = stdout st
          \<and> (calls (snd (RunE C L format duration args st)) = calls st
             \<or> calls (snd (RunE C L format duration args st))
                 = calls st @ [OpenEnvironmentCall orgName envName duration]))
       \<and> (getCachedClient C = None \<and> getEnvName C args = (orgName, envName, [], None)
            \<and> format \<in> set formats \<and> err = None \<longrightarrow>
            RunE C L format duration args st
              = (snd (writePropertyEnvironmentDiagnostics C (stderr st) diags),
                 st\<lparr>stderr := fst (writePropertyEnvironmentDiagnostics C (stderr st) diags),
                    calls := calls st @ [OpenEnvironmentCall orgName envName duration]\<rparr>))"
proof -
  have a: "getEnvName C args = (orgName, envName, args', e) \<Longrightarrow>
      stdout (snd (RunE C L format duration args st)) = stdout st
      \<and> (calls (snd (RunE C L format duration args st)) = calls st
         \<or> calls (snd (RunE C L format duration args st))
             = calls st @ [OpenEnvironmentCall orgName envName duration])"
    using assms
    by (auto simp: RunE_def openEnvironment_diags split: option.splits prod.splits if_splits)
  have b: "getCachedClient C = None \<and> getEnvName C args = (orgName, envName, [], None)
            \<and> format \<in> set formats \<and> err = None \<Longrightarrow>
            RunE C L format duration args st
              = (snd (writePropertyEnvironmentDiagnostics C (stderr st) diags),
                 st\<lparr>stderr := fst (writePropertyEnvironmentDiagnostics C (stderr st) diags),
                    calls := calls st @ [OpenEnvironmentCall orgName envName duration]\<rparr>)"
    using assms
    by (auto simp: RunE_def openEnvironment_diags formats_def split: prod.splits)
  from a b show ?thesis
    using assms by (simp add: openEnvironment_diags)
qed

text \<open>An open call that reports one diagnostic and no error.\<close>

theorem diagnostics_stop_the_fetch_witness:
  "openEnvironment diagCmd [] ''org'' ''env'' 7200
     = ((None, [''unknown property''], None), [OpenEnvironmentCall ''org'' ''env'' 7200])
   \<and> RunE diagCmd ascLib ''json'' 7200 [''env''] state0
     = (None, state0\<lparr>stderr := ''unknown property'',
                      calls := [OpenEnvironmentCall ''org'' ''env'' 7200]\<rparr>)"
proof -
  have o: "OpenEnvironment diagCmd ''org'' ''env'' 7200 = ([], [''unknown property''], None)"
    by (simp add: diagCmd_def)
  have g: "getCachedClient diagCmd = None \<and> getEnvName diagCmd [''env''] = (''org'', ''env'', [], None)"
    by (simp add: diagCmd_def okCmd_def)
  have w: "writePropertyEnvironmentDiagnostics diagCmd [] [''unknown property''] = (''unknown property'', None)"
    by (simp add: diagCmd_def okCmd_def)
  show ?thesis
    using diagnostics_stop_the_fetch [OF o, of "[]" "[''env'']" "[]" None ascLib "''json''" state0] g w
    by (simp add: formats_def state0_def)
qed

text \<open>
  C2 as stated fails when the open call returns diagnostics together with an error: the
  error is returned and the diagnostics are not.
\<close>

theorem diagnostics_with_error_counterexample:
  "OpenEnvironment diagErrCmd ''org'' ''env'' 7200
     = ([], [''unknown property''], Some (Error ''bad request''))
   \<and> openEnvironment diagErrCmd [] ''org'' ''env'' 7200
     = ((None, [], Some (Error ''bad request'')), [OpenEnvironmentCall ''org'' ''env'' 7200])"
  by (simp add: openEnvironment_def diagErrCmd_def)

subsection \<open>Validation of the format before any remote call\<close>

text \<open>
  C3. When the format is dotenv or shell and the property path supplied is not empty,
  the command returns an error and leaves the state as it was: no remote call is made,
  neither the open nor the fetch. When the steps before the check succeeded, the error
  is the one that says the format may not be used with a property path.
\<close>

theorem path_with_dotenv_or_shell_rejected:
  assumes "format = ''dotenv'' \<or> format = ''shell''"
    and "getEnvName C args = (orgName, envName, [a], e1)"
    and "ParsePropertyPath C a = (path, e2)"
    and "path \<noteq> []"
  shows "fst (RunE C L format duration args st) \<noteq> None
       \<and> snd (RunE C L format duration args st) = st
       \<and> (getCachedClient C = None \<and> e1 = None \<and> e2 = None \<longrightarrow>
            RunE C L format duration args st
              = (Some (Error (''output format '' @ [CHR 0x27] @ format @ [CHR 0x27]
                               @ '' may not be used with a property path'')), st))"
  using assms by (auto simp: RunE_def split: option.splits)

text \<open>The arguments \<open>env x\<close> with the format dotenv.\<close>

theorem path_with_dotenv_or_shell_rejected_witness:
  "RunE okCmd ascLib ''dotenv'' 7200 [''env'', ''x''] state0
     = (Some (Error (''output format '' @ [CHR 0x27] @ ''dotenv'' @ [CHR 0x27]
                      @ '' may not be used with a property path'')), state0)
   \<and> calls state0 = []"
proof -
  have "getEnvName okCmd [''env'', ''x''] = (''org'', ''env'', [''x''], None)"
    and "ParsePropertyPath okCmd ''x'' = ([Key ''x''], None)"
    and "getCachedClient okCmd = None"
    by (simp_all add: okCmd_def)
  then show ?thesis
    using path_with_dotenv_or_shell_rejected [of "''dotenv''" okCmd "[''env'', ''x'']" "''org''"
        "''env''" "''x''" None "[Key ''x'']" None ascLib 7200 state0]
    by (simp add: state0_def)
qed

text \<open>
  C6, as amended. For a format outside json, detailed, dotenv, shell and string the
  command returns an error and leaves the state as it was, so no remote call is made.
  When the steps before the check succeeded (client, environment name, property path),
  the error is \<open>unknown output format\<close> followed by the format as \<open>%q\<close> renders it; the
  message contains the format literally when the format is made of printable ASCII
  characters other than the double quote and the backslash.
\<close>

theorem unknown_format_rejected:
  assumes "format \<notin> set formats"
  shows "fst (RunE C L format duration args st) \<noteq> None
       \<and> snd (RunE C L format duration args st) = st
       \<and> (getCachedClient C = None \<and> getEnvName C args = (orgName, envName, args', None)
            \<and> (length args' = 1 \<longrightarrow> snd (ParsePropertyPath C (args' ! 0)) = None) \<longrightarrow>
            RunE C L format duration args st
              = (Some (Error (''unknown output format '' @ Quote L format)), st))
       \<and> (list_all plainChar format \<longrightarrow>
            Quote L format = dquote # format @ [dquote]
          \<and> sublist format (''unknown output format '' @ Quote L format))"
proof -
  have a: "fst (RunE C L format duration args st) \<noteq> None
       \<and> snd (RunE C L format duration args st) = st"
    using assms by (auto simp: RunE_def formats_def split: option.splits prod.splits)
  have b: "getCachedClient C = None \<and> getEnvName C args = (orgName, envName, args', None)
            \<and> (length args' = 1 \<longrightarrow> snd (ParsePropertyPath C (args' ! 0)) = None) \<Longrightarrow>
            RunE C L format duration args st
              = (Some (Error (''unknown output format '' @ Quote L format)), st)"
    using assms by (auto simp: RunE_def formats_def split: option.splits prod.splits)
  have c: "list_all plainChar format \<Longrightarrow>
            Quote L format = dquote # format @ [dquote]
          \<and> sublist format (''unknown output format '' @ Quote L format)"
  proof -
    assume "list_all plainChar format"
    then have q: "Quote L format = dquote # format @ [dquote]" by (rule Quote_plain)
    have "sublist format ((''unknown output format '' @ [dquote]) @ format @ [dquote])"
      by (rule sublist_appendI)
    with q show ?thesis by simp
  qed
  from a b c show ?thesis by blast
qed

text \<open>The format \<open>bogus\<close>.\<close>

theorem unknown_format_rejected_witness:
  "RunE okCmd ascLib ''bogus'' 7200 [''env''] state0
     = (Some (Error (''unknown output format '' @ [dquote] @ ''bogus'' @ [dquote])), state0)
   \<and> sublist ''bogus'' (''unknown output format '' @ [dquote] @ ''bogus'' @ [dquote])"
proof -
  have f: "''bogus'' \<notin> set formats" by (simp add: formats_def)
  have g: "getCachedClient okCmd = None \<and> getEnvName okCmd [''env''] = (''org'', ''env'', [], None)
      \<and> (length ([] :: string list) = 1 \<longrightarrow> snd (ParsePropertyPath okCmd ([] ! 0)) = None)"
    by (simp add: okCmd_def)
  have p: "list_all plainChar ''bogus''" by (simp add: plainChar_def)
  note u = unknown_format_rejected [OF f, of okCmd ascLib 7200 "[''env'']" state0 "''org''" "''env''" "[]"]
  from u g have r: "RunE okCmd ascLib ''bogus'' 7200 [''env''] state0
      = (Some (Error (''unknown output format '' @ Quote ascLib ''bogus'')), state0)"
    by blast
  from u p have q: "Quote ascLib ''bogus'' = dquote # ''bogus'' @ [dquote]"
    and s: "sublist ''bogus'' (''unknown output format '' @ Quote ascLib ''bogus'')"
    by blast+
  from s have "sublist ''bogus'' (''unknown output format '' @ [dquote] @ ''bogus'' @ [dquote])"
    by (simp only: q append_Cons append_Nil)
  with r show ?thesis by (simp only: q append_Cons append_Nil simp_thms)
qed

text \<open>
  C6 as stated fails for the format \<open>a"b\<close>, which the message shows as \<open>"a\"b"\<close>, and for
  the format \<open>bogus\<close> without an environment name, where the error is about the name.
\<close>

theorem unknown_format_literal_counterexample:
  "RunE okCmd ascLib [CHR ''a'', dquote, CHR ''b''] 7200 [''env''] state0
     = (Some (Error (''unknown output format ''
                       @ [dquote, CHR ''a'', backslash, dquote, CHR ''b'', dquote])), state0)
   \<and> \<not> sublist [CHR ''a'', dquote, CHR ''b'']
         (''unknown output format '' @ [dquote, CHR ''a'', backslash, dquote, CHR ''b'', dquote])
   \<and> RunE okCmd ascLib ''bogus'' 7200 [] state0
     = (Some (Error ''no environment name specified''), state0)
   \<and> \<not> sublist ''bogus'' ''no environment name specified''"
proof -
  have "RunE okCmd ascLib [CHR ''a'', dquote, CHR ''b''] 7200 [''env''] state0
     = (Some (Error (''unknown output format '' @ Quote ascLib [CHR ''a'', dquote, CHR ''b''])), state0)"
    by (simp add: RunE_def okCmd_def)
  moreover have "RunE okCmd ascLib ''bogus'' 7200 [] state0
     = (Some (Error ''no environment name specified''), state0)"
    by (simp add: RunE_def okCmd_def)
  ultimately show ?thesis
    by (simp add: Quote_a_dquote_b sublist_code(3))
qed

end
